theory Spec2Isabelle
  imports Complex_Main "HOL-Library.AList"
begin

section \<open>JSON values as Python sees them\<close>

text \<open>
  \<^verbatim>\<open>json.load\<close> yields \<^verbatim>\<open>None\<close>, a \<^verbatim>\<open>bool\<close>, an \<^verbatim>\<open>int\<close>, a \<^verbatim>\<open>float\<close>,
  a \<^verbatim>\<open>str\<close>, a \<^verbatim>\<open>list\<close> or a \<^verbatim>\<open>dict\<close>. A dict keeps its keys in insertion
  order and has no key twice, so \<open>JObj\<close> carries the list that \<^verbatim>\<open>.items()\<close> walks.
  The dashboard never computes with a float: it only passes it on.
\<close>

datatype json =
    JNull
  | JBool bool
  | JInt int
  | JFloat real
  | JStr string
  | JArr "json list"
  | JObj "(string \<times> json) list"

section \<open>The string methods the dashboard calls\<close>

text \<open>
  \<^verbatim>\<open>str.lower\<close>, \<^verbatim>\<open>str.upper\<close> and \<^verbatim>\<open>str.title\<close> on ASCII text: the 26 letters
  change case, every other character is left alone. \<^verbatim>\<open>str.title\<close> upper-cases a
  letter that follows a character without case and lower-cases one that follows a letter.
  The words the normalizers compare with are ASCII and no character outside ASCII
  lower-cases to one of their letters, so the comparisons are those of Python for every
  string; the upper-casing of a journal id is Python's for ASCII ids.
\<close>

definition ascii_uppercase :: string where
  "ascii_uppercase = ''ABCDEFGHIJKLMNOPQRSTUVWXYZ''"

definition ascii_lowercase :: string where
  "ascii_lowercase = ''abcdefghijklmnopqrstuvwxyz''"

definition lower_char :: "char \<Rightarrow> char" where
  "lower_char c =
     (case map_of (zip ascii_uppercase ascii_lowercase) c of None \<Rightarrow> c | Some d \<Rightarrow> d)"

definition upper_char :: "char \<Rightarrow> char" where
  "upper_char c =
     (case map_of (zip ascii_lowercase ascii_uppercase) c of None \<Rightarrow> c | Some d \<Rightarrow> d)"

definition is_cased :: "char \<Rightarrow> bool" where
  "is_cased c = (c \<in> set ascii_uppercase \<or> c \<in> set ascii_lowercase)"

definition str_lower :: "string \<Rightarrow> string" where
  "str_lower s = map lower_char s"

definition str_upper :: "string \<Rightarrow> string" where
  "str_upper s = map upper_char s"

fun title_from :: "bool \<Rightarrow> string \<Rightarrow> string" where
  "title_from previous_is_cased [] = []"
| "title_from previous_is_cased (c # cs) =
     (if previous_is_cased then lower_char c else upper_char c) # title_from (is_cased c) cs"

definition str_title :: "string \<Rightarrow> string" where
  "str_title s = title_from False s"

section \<open>The two Pass/Fail normalizers\<close>

text \<open>
  The function local to \<^verbatim>\<open>load_json_data\<close> (lines 34 to 41):
  \<^verbatim>\<open>
  def convert_bool_to_pass_fail(value):
      if isinstance(value, bool):
          return "Pass" if value else "Fail"
      if isinstance(value, str):
          lv = value.lower()
          if lv in ("true", "pass"): return "Pass"
          if lv in ("false", "fail"): return "Fail"
      return value
  \<close>
\<close>

definition convert_bool_to_pass_fail_inner :: "json \<Rightarrow> json" where
  "convert_bool_to_pass_fail_inner v =
     (case v of
        JBool b \<Rightarrow> (if b then JStr ''Pass'' else JStr ''Fail'')
      | JStr s \<Rightarrow>
          (let lv = str_lower s in
             if lv = ''true'' \<or> lv = ''pass'' then JStr ''Pass''
             else if lv = ''false'' \<or> lv = ''fail'' then JStr ''Fail''
             else v)
      | _ \<Rightarrow> v)"

text \<open>
  The module-level function (lines 74 to 86), which the detail view calls:
  \<^verbatim>\<open>
  def convert_bool_to_pass_fail(value):
      if isinstance(value, bool):
          return "Pass" if value else "Fail"
      elif isinstance(value, str):
          lower_value = value.lower()
          if lower_value == 'true':
              return "Pass"
          elif lower_value == 'false':
              return "Fail"
          elif lower_value == 'pass' or lower_value == 'fail':
              return value.title()
      return value
  \<close>
\<close>

definition convert_bool_to_pass_fail :: "json \<Rightarrow> json" where
  "convert_bool_to_pass_fail v =
     (case v of
        JBool b \<Rightarrow> (if b then JStr ''Pass'' else JStr ''Fail'')
      | JStr s \<Rightarrow>
          (let lower_value = str_lower s in
             if lower_value = ''true'' then JStr ''Pass''
             else if lower_value = ''false'' then JStr ''Fail''
             else if lower_value = ''pass'' \<or> lower_value = ''fail'' then JStr (str_title s)
             else v)
      | _ \<Rightarrow> v)"

section \<open>Python operations on parsed JSON\<close>

text \<open>
  Every exception the loader can raise is a value. \<open>JSONDecodeError\<close> and \<open>OSError\<close>
  come from reading the file, the others from the flattening itself.
\<close>

datatype error =
    KeyError string
  | TypeError
  | AttributeError
  | JSONDecodeError
  | OSError

definition and_then :: "error + 'a \<Rightarrow> ('a \<Rightarrow> error + 'b) \<Rightarrow> error + 'b" where
  "and_then m f = (case m of Inl e \<Rightarrow> Inl e | Inr x \<Rightarrow> f x)"

text \<open>
  \<^verbatim>\<open>obj[key]\<close> with a string key: a dict answers or raises \<^verbatim>\<open>KeyError\<close>; a list, a
  string, a number, a bool and \<^verbatim>\<open>None\<close> raise \<^verbatim>\<open>TypeError\<close>.
\<close>

definition getitem :: "json \<Rightarrow> string \<Rightarrow> error + json" where
  "getitem obj key =
     (case obj of
        JObj d \<Rightarrow> (case map_of d key of None \<Rightarrow> Inl (KeyError key) | Some v \<Rightarrow> Inr v)
      | _ \<Rightarrow> Inl TypeError)"

text \<open>\<^verbatim>\<open>obj[k1][k2]\<close>, as in \<^verbatim>\<open>item['metadata']['timestamp']\<close>.\<close>

definition getitem2 :: "json \<Rightarrow> string \<Rightarrow> string \<Rightarrow> error + json" where
  "getitem2 obj k1 k2 = and_then (getitem obj k1) (\<lambda>inner. getitem inner k2)"

text \<open>\<^verbatim>\<open>obj.get(key, default)\<close> and \<^verbatim>\<open>obj.items()\<close>: only a dict has them.\<close>

definition dict_get :: "json \<Rightarrow> string \<Rightarrow> json \<Rightarrow> error + json" where
  "dict_get obj key dflt =
     (case obj of
        JObj d \<Rightarrow> Inr (case map_of d key of None \<Rightarrow> dflt | Some v \<Rightarrow> v)
      | _ \<Rightarrow> Inl AttributeError)"

definition dict_items :: "json \<Rightarrow> error + (string \<times> json) list" where
  "dict_items obj = (case obj of JObj d \<Rightarrow> Inr d | _ \<Rightarrow> Inl AttributeError)"

text \<open>
  Iteration (\<^verbatim>\<open>for item in data\<close>, and the argument of \<^verbatim>\<open>join\<close>): a list gives its
  elements, a dict its keys, a string its characters as one-character strings; nothing
  else is iterable.
\<close>

definition py_iter :: "json \<Rightarrow> error + json list" where
  "py_iter v =
     (case v of
        JArr xs \<Rightarrow> Inr xs
      | JObj d \<Rightarrow> Inr (map (\<lambda>kv. JStr (fst kv)) d)
      | JStr s \<Rightarrow> Inr (map (\<lambda>c. JStr [c]) s)
      | _ \<Rightarrow> Inl TypeError)"

text \<open>\<^verbatim>\<open>sep.join(xs)\<close> raises \<^verbatim>\<open>TypeError\<close> unless every element is a string.\<close>

fun as_strings :: "json list \<Rightarrow> string list option" where
  "as_strings [] = Some []"
| "as_strings (v # vs) =
     (case v of
        JStr s \<Rightarrow> (case as_strings vs of None \<Rightarrow> None | Some ss \<Rightarrow> Some (s # ss))
      | _ \<Rightarrow> None)"

fun join_strings :: "string \<Rightarrow> string list \<Rightarrow> string" where
  "join_strings sep [] = []"
| "join_strings sep [x] = x"
| "join_strings sep (x # y # ys) = x @ sep @ join_strings sep (y # ys)"

definition str_join :: "string \<Rightarrow> json \<Rightarrow> error + string" where
  "str_join sep v =
     and_then (py_iter v)
       (\<lambda>xs. case as_strings xs of None \<Rightarrow> Inl TypeError | Some ss \<Rightarrow> Inr (join_strings sep ss))"

text \<open>
  \<^verbatim>\<open>str(x)\<close>: a string is itself, \<^verbatim>\<open>None\<close> and the booleans print their names, an
  integer prints in decimal. How Python prints a float, a list or a dict is not part of
  this repository: it is the parameter \<open>py_repr\<close>.
\<close>

definition digit_char :: "nat \<Rightarrow> char" where
  "digit_char d = ''0123456789'' ! d"

fun decimal :: "nat \<Rightarrow> string" where
  "decimal n = (if n < 10 then [digit_char n] else decimal (n div 10) @ [digit_char (n mod 10)])"

definition py_str :: "(json \<Rightarrow> string) \<Rightarrow> json \<Rightarrow> string" where
  "py_str py_repr v =
     (case v of
        JStr s \<Rightarrow> s
      | JNull \<Rightarrow> ''None''
      | JBool b \<Rightarrow> (if b then ''True'' else ''False'')
      | JInt i \<Rightarrow> (if i < 0 then ''-'' @ decimal (nat (- i)) else decimal (nat i))
      | _ \<Rightarrow> py_repr v)"

section \<open>The record flattener\<close>

text \<open>
  The row under construction is the Python dict \<^verbatim>\<open>record\<close>: an association list in
  insertion order, where \<^verbatim>\<open>record[k] = v\<close> replaces the value of a key already there
  and appends a new key (\<open>AList.update\<close>).

  Lines 22 to 32, the dict literal, evaluated top to bottom:
  \<^verbatim>\<open>
  record = {
      'timestamp': item['metadata']['timestamp'],
      'evaluations_run': ', '.join(item['metadata']['evaluations_run']),
      'jid': str(item['input_data']['jid']).upper(),
      'aid': item['input_data']['aid'],
      'aligned': item['input_data']['aligned'],
      'gold_aligned': item['input_data']['gold_aligned'],
      'title': item['input_data']['title'],
      'rationale': item['input_data'].get('rationale', 'N/A'),
      'source_file': item['source_file']
  }
  \<close>
\<close>

type_synonym row = "(string \<times> json) list"

definition base_record :: "(json \<Rightarrow> string) \<Rightarrow> json \<Rightarrow> error + row" where
  "base_record py_repr item =
     and_then (getitem2 item ''metadata'' ''timestamp'') (\<lambda>timestamp.
     and_then (getitem2 item ''metadata'' ''evaluations_run'') (\<lambda>runs.
     and_then (str_join '', '' runs) (\<lambda>evaluations_run.
     and_then (getitem2 item ''input_data'' ''jid'') (\<lambda>jid.
     and_then (getitem2 item ''input_data'' ''aid'') (\<lambda>aid.
     and_then (getitem2 item ''input_data'' ''aligned'') (\<lambda>aligned.
     and_then (getitem2 item ''input_data'' ''gold_aligned'') (\<lambda>gold_aligned.
     and_then (getitem2 item ''input_data'' ''title'') (\<lambda>title.
     and_then (and_then (getitem item ''input_data'')
                 (\<lambda>input_data. dict_get input_data ''rationale'' (JStr ''N/A''))) (\<lambda>rationale.
     and_then (getitem item ''source_file'') (\<lambda>source_file.
       Inr [(''timestamp'', timestamp),
            (''evaluations_run'', JStr evaluations_run),
            (''jid'', JStr (str_upper (py_str py_repr jid))),
            (''aid'', aid),
            (''aligned'', aligned),
            (''gold_aligned'', gold_aligned),
            (''title'', title),
            (''rationale'', rationale),
            (''source_file'', source_file)]))))))))))"

text \<open>
  \<^verbatim>\<open>if key in result: record[column] = result[key]\<close>, the copy of an optional
  sub-field (\<^verbatim>\<open>reason\<close>, \<^verbatim>\<open>which_one_executed\<close>).
\<close>

definition copy_if_present :: "(string \<times> json) list \<Rightarrow> string \<Rightarrow> string \<Rightarrow> row \<Rightarrow> row" where
  "copy_if_present result key column record =
     (case map_of result key of None \<Rightarrow> record | Some v \<Rightarrow> AList.update column v record)"

text \<open>
  The body of the loop over \<^verbatim>\<open>eval_results.items()\<close>, lines 44 to 67: what one
  \<^verbatim>\<open>(eval_type, result)\<close> pair writes into the record.
  \<^verbatim>\<open>
  if eval_type == 'decision_accuracy':
      record[f'eval_{eval_type}'] = convert_bool_to_pass_fail(result)
  elif isinstance(result, dict):
      if 'grounded' in result:
          record[f'eval_{eval_type}'] = convert_bool_to_pass_fail(result['grounded'])
          if 'reason' in result:
              record[f'eval_{eval_type}_reason'] = result['reason']
      elif 'Eval_Status' in result:
          record[f'eval_{eval_type}'] = convert_bool_to_pass_fail(result['Eval_Status'])
          if 'which_one_executed' in result:
              record[f'eval_{eval_type}_which_one_executed'] = result['which_one_executed']
          if 'reason' in result:
              record[f'eval_{eval_type}_reason'] = result['reason']
      elif 'negation_pass' in result:
          record[f'eval_{eval_type}'] = convert_bool_to_pass_fail(result['negation_pass'])
          if 'which_one_executed' in result:
              record[f'eval_{eval_type}_which_one_executed'] = result['which_one_executed']
          if 'reason' in result:
              record[f'eval_{eval_type}_reason'] = result['reason']
      else:
          for key, value in result.items():
              record[f'eval_{eval_type}_{key}'] = convert_bool_to_pass_fail(value)
  else:
      record[f'eval_{eval_type}'] = convert_bool_to_pass_fail(result)
  \<close>
\<close>

definition add_eval_columns :: "string \<Rightarrow> json \<Rightarrow> row \<Rightarrow> row" where
  "add_eval_columns eval_type result record =
     (if eval_type = ''decision_accuracy'' then
        AList.update (''eval_'' @ eval_type) (convert_bool_to_pass_fail_inner result) record
      else
        (case result of
           JObj d \<Rightarrow>
             (case map_of d ''grounded'' of
                Some grounded \<Rightarrow>
                  copy_if_present d ''reason'' (''eval_'' @ eval_type @ ''_reason'')
                    (AList.update (''eval_'' @ eval_type)
                       (convert_bool_to_pass_fail_inner grounded) record)
              | None \<Rightarrow>
                 (case map_of d ''Eval_Status'' of
                    Some eval_status \<Rightarrow>
                      copy_if_present d ''reason'' (''eval_'' @ eval_type @ ''_reason'')
                        (copy_if_present d ''which_one_executed''
                           (''eval_'' @ eval_type @ ''_which_one_executed'')
                           (AList.update (''eval_'' @ eval_type)
                              (convert_bool_to_pass_fail_inner eval_status) record))
                  | None \<Rightarrow>
                     (case map_of d ''negation_pass'' of
                        Some negation_pass \<Rightarrow>
                          copy_if_present d ''reason'' (''eval_'' @ eval_type @ ''_reason'')
                            (copy_if_present d ''which_one_executed''
                               (''eval_'' @ eval_type @ ''_which_one_executed'')
                               (AList.update (''eval_'' @ eval_type)
                                  (convert_bool_to_pass_fail_inner negation_pass) record))
                      | None \<Rightarrow>
                          fold (\<lambda>kv. AList.update (''eval_'' @ eval_type @ ''_'' @ fst kv)
                                        (convert_bool_to_pass_fail_inner (snd kv)))
                            d record)))
         | _ \<Rightarrow>
             AList.update (''eval_'' @ eval_type) (convert_bool_to_pass_fail_inner result) record))"

text \<open>
  One pass of the loop over \<^verbatim>\<open>data\<close> (lines 22 to 69): the base record, then
  \<^verbatim>\<open>item['evaluation_results']\<close>, then one step per pair of \<^verbatim>\<open>.items()\<close>.
\<close>

definition flatten_record :: "(json \<Rightarrow> string) \<Rightarrow> json \<Rightarrow> error + row" where
  "flatten_record py_repr item =
     and_then (base_record py_repr item) (\<lambda>record.
     and_then (getitem item ''evaluation_results'') (\<lambda>eval_results.
     and_then (dict_items eval_results) (\<lambda>pairs.
       Inr (fold (\<lambda>kv. add_eval_columns (fst kv) (snd kv)) pairs record))))"

section \<open>The loader\<close>

text \<open>
  A file is what \<^verbatim>\<open>json.load\<close> makes of it: the parsed value, or the exception
  raised on the way. \<open>uploaded_file\<close> is \<open>None\<close> when nothing was uploaded, and
  \<open>default_file\<close> is \<open>None\<close> when \<^verbatim>\<open>os.path.exists(default_path)\<close> is false
  (lines 10 to 18).
\<close>

type_synonym json_file = "error + json"

definition read_data :: "json_file option \<Rightarrow> json_file option \<Rightarrow> error + json" where
  "read_data uploaded_file default_file =
     (case uploaded_file of
        Some f \<Rightarrow> f
      | None \<Rightarrow> (case default_file of Some f \<Rightarrow> f | None \<Rightarrow> Inr (JArr [])))"

text \<open>
  The loop of lines 20 to 69: \<^verbatim>\<open>records\<close> grows by one row per item, and an
  exception in any item leaves the function at once. The table is the list of rows that
  \<^verbatim>\<open>pd.DataFrame(records)\<close> receives.
\<close>

fun load_loop :: "(json \<Rightarrow> string) \<Rightarrow> json list \<Rightarrow> row list \<Rightarrow> error + row list" where
  "load_loop py_repr [] records = Inr records"
| "load_loop py_repr (item # rest) records =
     (case flatten_record py_repr item of
        Inl e \<Rightarrow> Inl e
      | Inr record \<Rightarrow> load_loop py_repr rest (records @ [record]))"

definition load_json_data ::
  "(json \<Rightarrow> string) \<Rightarrow> json_file option \<Rightarrow> json_file option \<Rightarrow> error + row list" where
  "load_json_data py_repr uploaded_file default_file =
     and_then (read_data uploaded_file default_file) (\<lambda>data.
     and_then (py_iter data) (\<lambda>items. load_loop py_repr items []))"

section \<open>Predicates used in the statements\<close>

text \<open>
  A case variant of a word: the same length, and at every position the lower-case or
  the upper-case form of the word's character.
\<close>

definition case_variant :: "string \<Rightarrow> string \<Rightarrow> bool" where
  "case_variant s w = list_all2 (\<lambda>c d. c = lower_char d \<or> c = upper_char d) s w"

text \<open>
  The keys the specification calls required, as paths into a record, and what it means
  for a record to have one: every step of the path is a key of a mapping.
\<close>

definition required_keys :: "string list list" where
  "required_keys =
     [[''metadata'', ''timestamp''],
      [''input_data'', ''jid''],
      [''input_data'', ''aid''],
      [''input_data'', ''aligned''],
      [''input_data'', ''gold_aligned''],
      [''input_data'', ''title''],
      [''evaluation_results''],
      [''source_file'']]"

fun has_key_path :: "json \<Rightarrow> string list \<Rightarrow> bool" where
  "has_key_path v [] = True"
| "has_key_path v (k # ks) =
     (case v of
        JObj d \<Rightarrow> (case map_of d k of None \<Rightarrow> False | Some x \<Rightarrow> has_key_path x ks)
      | _ \<Rightarrow> False)"

text \<open>
  A well-formed record: it has the required keys, \<^verbatim>\<open>metadata.evaluations_run\<close> can be
  joined, and \<^verbatim>\<open>evaluation_results\<close> is a mapping. Neither \<^verbatim>\<open>rationale\<close> nor any
  \<^verbatim>\<open>reason\<close> is asked for.
\<close>

definition record_ok :: "json \<Rightarrow> bool" where
  "record_ok item =
     (list_all (has_key_path item) required_keys
      \<and> (case getitem2 item ''metadata'' ''evaluations_run'' of
           Inl e \<Rightarrow> False
         | Inr runs \<Rightarrow> (case str_join '', '' runs of Inl e \<Rightarrow> False | Inr joined \<Rightarrow> True))
      \<and> (case getitem item ''evaluation_results'' of
           Inl e \<Rightarrow> False
         | Inr results \<Rightarrow> (case results of JObj d \<Rightarrow> True | _ \<Rightarrow> False)))"

section \<open>Example records\<close>

text \<open>
  A record of the shape the dashboard is fed, for running the loader on: it has every
  required key and no \<^verbatim>\<open>rationale\<close>; its journal id and its evaluation results are
  left open.
\<close>

definition example_record :: "string \<Rightarrow> (string \<times> json) list \<Rightarrow> json" where
  "example_record jid results =
     JObj [(''metadata'',
              JObj [(''timestamp'', JStr ''2024-05-01T10:00:00''),
                    (''evaluations_run'', JArr [JStr ''groundedness'', JStr ''negation''])]),
           (''input_data'',
              JObj [(''jid'', JStr jid),
                    (''aid'', JInt 17),
                    (''aligned'', JBool True),
                    (''gold_aligned'', JBool False),
                    (''title'', JStr ''On rivers'')]),
           (''evaluation_results'', JObj results),
           (''source_file'', JStr ''run1.json'')]"

text \<open>The same record without \<^verbatim>\<open>input_data.jid\<close>.\<close>

definition example_without_jid :: json where
  "example_without_jid =
     JObj [(''metadata'',
              JObj [(''timestamp'', JStr ''2024-05-01T10:00:00''),
                    (''evaluations_run'', JArr [JStr ''groundedness'', JStr ''negation''])]),
           (''input_data'',
              JObj [(''aid'', JInt 17),
                    (''aligned'', JBool True),
                    (''gold_aligned'', JBool False),
                    (''title'', JStr ''On rivers'')]),
           (''evaluation_results'', JObj []),
           (''source_file'', JStr ''run1.json'')]"

text \<open>The base fields of the row of \<open>example_record jid results\<close>.\<close>

definition example_base :: "string \<Rightarrow> row" where
  "example_base jid =
     [(''timestamp'', JStr ''2024-05-01T10:00:00''),
      (''evaluations_run'', JStr ''groundedness, negation''),
      (''jid'', JStr jid),
      (''aid'', JInt 17),
      (''aligned'', JBool True),
      (''gold_aligned'', JBool False),
      (''title'', JStr ''On rivers''),
      (''rationale'', JStr ''N/A''),
      (''source_file'', JStr ''run1.json'')]"

section \<open>Facts about the case tables\<close>

lemmas case_tables =
  lower_char_def upper_char_def is_cased_def ascii_uppercase_def ascii_lowercase_def

lemma lower_char_fixed: "c \<notin> set ascii_uppercase \<Longrightarrow> lower_char c = c"
  by (simp add: lower_char_def ascii_uppercase_def ascii_lowercase_def)

lemma upper_char_fixed: "c \<notin> set ascii_lowercase \<Longrightarrow> upper_char c = c"
  by (simp add: upper_char_def ascii_uppercase_def ascii_lowercase_def)

lemma lower_char_of_upper:
  assumes "c \<in> set ascii_uppercase"
  shows "upper_char (lower_char c) = c \<and> lower_char (lower_char c) = lower_char c
         \<and> is_cased (lower_char c) \<and> upper_char c = c"
proof -
  from assms have "c \<in> set ''ABCDEFGHIJKLMNOPQRSTUVWXYZ''"
    by (simp only: ascii_uppercase_def)
  then show ?thesis
    by (simp only: set_simps insert_iff empty_iff) (elim disjE FalseE; simp add: case_tables)
qed

lemma upper_char_of_lower:
  assumes "c \<in> set ascii_lowercase"
  shows "lower_char (upper_char c) = c \<and> lower_char c = c
         \<and> upper_char c \<notin> set ascii_lowercase"
proof -
  from assms have "c \<in> set ''abcdefghijklmnopqrstuvwxyz''"
    by (simp only: ascii_lowercase_def)
  then show ?thesis
    by (simp only: set_simps insert_iff empty_iff) (elim disjE FalseE; simp add: case_tables)
qed

lemma upper_lower_char: "upper_char (lower_char c) = upper_char c"
  by (cases "c \<in> set ascii_uppercase") (simp_all add: lower_char_of_upper lower_char_fixed)

lemma lower_lower_char: "lower_char (lower_char c) = lower_char c"
  by (cases "c \<in> set ascii_uppercase") (simp_all add: lower_char_of_upper lower_char_fixed)

lemma lower_upper_char: "lower_char (upper_char c) = lower_char c"
  by (cases "c \<in> set ascii_lowercase") (simp_all add: upper_char_of_lower upper_char_fixed)

lemma is_cased_lower_char: "is_cased (lower_char c) = is_cased c"
  by (cases "c \<in> set ascii_uppercase")
     (simp_all add: lower_char_of_upper lower_char_fixed, simp add: is_cased_def)


lemma same_letter_iff:
  "(c = lower_char d \<or> c = upper_char d) = (lower_char c = lower_char d)"
proof
  assume "c = lower_char d \<or> c = upper_char d"
  then show "lower_char c = lower_char d"
    by (auto simp add: lower_lower_char lower_upper_char)
next
  assume eq: "lower_char c = lower_char d"
  show "c = lower_char d \<or> c = upper_char d"
  proof (cases "c \<in> set ascii_uppercase")
    case True
    then have "c = upper_char (lower_char c)" by (simp add: lower_char_of_upper)
    also have "\<dots> = upper_char d" by (simp add: eq upper_lower_char)
    finally show ?thesis by simp
  next
    case False
    then show ?thesis using eq by (simp add: lower_char_fixed)
  qed
qed

lemma case_variant_iff: "case_variant s w = (str_lower s = str_lower w)"
  unfolding case_variant_def str_lower_def same_letter_iff
  by (induction s arbitrary: w) (auto simp add: list_all2_Cons1)

lemma title_from_lower: "title_from b (str_lower s) = title_from b s"
  by (induction s arbitrary: b)
     (simp_all add: str_lower_def upper_lower_char lower_lower_char is_cased_lower_char)

lemma str_title_lower: "str_title s = str_title (str_lower s)"
  by (simp add: str_title_def title_from_lower)

lemma str_title_pass: "str_lower s = ''pass'' \<Longrightarrow> str_title s = ''Pass''"
  by (subst str_title_lower) (simp add: str_title_def case_tables)

lemma str_title_fail: "str_lower s = ''fail'' \<Longrightarrow> str_title s = ''Fail''"
  by (subst str_title_lower) (simp add: str_title_def case_tables)

lemma str_lower_words:
  "str_lower ''true'' = ''true''" "str_lower ''pass'' = ''pass''"
  "str_lower ''false'' = ''false''" "str_lower ''fail'' = ''fail''"
  "str_lower ''Pass'' = ''pass''" "str_lower ''Fail'' = ''fail''"
  by (simp_all add: str_lower_def case_tables)

section \<open>The normalizers compared\<close>

lemma normalizers_agree:
  "convert_bool_to_pass_fail v = convert_bool_to_pass_fail_inner v"
  by (cases v)
     (auto simp add: convert_bool_to_pass_fail_def convert_bool_to_pass_fail_inner_def Let_def
        str_title_pass str_title_fail)

lemma inner_idempotent:
  "convert_bool_to_pass_fail_inner (convert_bool_to_pass_fail_inner v) =
   convert_bool_to_pass_fail_inner v"
  by (cases v)
     (auto simp add: convert_bool_to_pass_fail_inner_def Let_def str_lower_words)

lemma inner_on_strings:
  "convert_bool_to_pass_fail_inner (JStr s) =
     (if case_variant s ''true'' \<or> case_variant s ''pass'' then JStr ''Pass''
      else if case_variant s ''false'' \<or> case_variant s ''fail'' then JStr ''Fail''
      else JStr s)"
  by (simp add: convert_bool_to_pass_fail_inner_def Let_def case_variant_iff str_lower_words)

lemma inner_on_others:
  "(\<forall>b. v \<noteq> JBool b) \<Longrightarrow> (\<forall>t. v \<noteq> JStr t) \<Longrightarrow> convert_bool_to_pass_fail_inner v = v"
  by (cases v) (auto simp add: convert_bool_to_pass_fail_inner_def)

section \<open>Sequencing of fallible steps\<close>

lemma and_then_Inr_iff: "(and_then m f = Inr r) = (\<exists>x. m = Inr x \<and> f x = Inr r)"
  by (cases m) (simp_all add: and_then_def)

lemma and_then_Inl_iff:
  "(and_then m f = Inl e) = (m = Inl e \<or> (\<exists>x. m = Inr x \<and> f x = Inl e))"
  by (cases m) (simp_all add: and_then_def)

lemma and_then_Inr [simp]: "and_then (Inr x) f = f x"
  by (simp add: and_then_def)

lemma and_then_Inl [simp]: "and_then (Inl e) f = Inl e"
  by (simp add: and_then_def)

section \<open>The loader's loop\<close>

lemma load_loop_Inr_iff:
  "(load_loop py_repr items records = Inr rows) =
   (\<exists>new. rows = records @ new \<and> map (flatten_record py_repr) items = map Inr new)"
proof (induction items arbitrary: records)
  case Nil
  then show ?case by auto
next
  case (Cons item rest)
  show ?case
  proof (cases "flatten_record py_repr item")
    case (Inl e)
    then show ?thesis by (auto simp add: map_eq_Cons_conv)
  next
    case (Inr r)
    have "(\<exists>new. rows = (records @ [r]) @ new
             \<and> map (flatten_record py_repr) rest = map Inr new) =
          (\<exists>new. rows = records @ new
             \<and> Inr r # map (flatten_record py_repr) rest = map Inr new)"
      by (auto simp add: Cons_eq_map_conv)
    with Inr Cons.IH [of "records @ [r]"] show ?thesis by simp
  qed
qed

lemma load_loop_Inl_iff:
  "(\<exists>e. load_loop py_repr items records = Inl e) =
   (\<exists>item\<in>set items. \<exists>e. flatten_record py_repr item = Inl e)"
proof (induction items arbitrary: records)
  case Nil
  then show ?case by simp
next
  case (Cons item rest)
  then show ?case by (cases "flatten_record py_repr item") auto
qed

section \<open>What one evaluation pair writes\<close>

lemma map_of_copy_if_present:
  "map_of (copy_if_present d key column r) =
     (case map_of d key of None \<Rightarrow> map_of r | Some v \<Rightarrow> (map_of r)(column \<mapsto> v))"
  by (simp add: copy_if_present_def update_conv' split: option.split)

lemma fold_update_map_of:
  "distinct (map fst xs) \<Longrightarrow>
   map_of (fold (\<lambda>kv. AList.update (fst kv) (snd kv)) xs r) = map_of r ++ map_of xs"
proof (induction xs arbitrary: r)
  case Nil
  then show ?case by simp
next
  case (Cons x xs)
  obtain k v where x: "x = (k, v)" by (cases x)
  from Cons.prems x have fresh: "k \<notin> dom (map_of xs)" and dist: "distinct (map fst xs)"
    by (simp_all add: dom_map_of_conv_image_fst)
  have "map_of (fold (\<lambda>kv. AList.update (fst kv) (snd kv)) (x # xs) r) =
        map_of (fold (\<lambda>kv. AList.update (fst kv) (snd kv)) xs (AList.update k v r))"
    by (simp add: x)
  also have "\<dots> = map_of (AList.update k v r) ++ map_of xs"
    using dist by (rule Cons.IH)
  also have "\<dots> = (map_of r)(k \<mapsto> v) ++ map_of xs"
    by (simp only: update_conv')
  also have "\<dots> = (map_of r ++ map_of xs)(k \<mapsto> v)"
    using fresh by (rule map_add_upd_left)
  also have "\<dots> = map_of r ++ (map_of xs)(k \<mapsto> v)"
    by (simp only: map_add_upd)
  also have "\<dots> = map_of r ++ map_of (x # xs)"
    by (simp only: x map_of.simps fst_conv snd_conv)
  finally show ?case .
qed

lemma other_mapping_columns:
  assumes "distinct (map fst d)"
  shows "map_of (fold (\<lambda>kv. AList.update (''eval_'' @ eval_type @ ''_'' @ fst kv)
                        (convert_bool_to_pass_fail_inner (snd kv))) d r) =
         map_of r ++ map_of (map (\<lambda>kv. (''eval_'' @ eval_type @ ''_'' @ fst kv,
                                          convert_bool_to_pass_fail_inner (snd kv))) d)"
proof -
  let ?m = "\<lambda>kv. (''eval_'' @ eval_type @ ''_'' @ fst kv, convert_bool_to_pass_fail_inner (snd kv))"
  have "inj (\<lambda>key. ''eval_'' @ eval_type @ ''_'' @ key)"
    by (rule injI) simp
  then have "distinct (map (\<lambda>key. ''eval_'' @ eval_type @ ''_'' @ key) (map fst d))"
    using assms by (simp add: distinct_map inj_on_def)
  then have "distinct (map fst (map ?m d))"
    by (simp add: comp_def)
  then have "map_of (fold (\<lambda>kv. AList.update (fst kv) (snd kv)) (map ?m d) r) =
             map_of r ++ map_of (map ?m d)"
    by (rule fold_update_map_of)
  then show ?thesis
    by (simp add: fold_map comp_def)
qed

lemma base_record_keys:
  assumes "base_record py_repr item = Inr base"
  shows "map fst base = [''timestamp'', ''evaluations_run'', ''jid'', ''aid'',
        ''aligned'', ''gold_aligned'', ''title'', ''rationale'', ''source_file'']"
  using assms unfolding base_record_def and_then_Inr_iff by (elim exE conjE) auto

lemma update_fresh:
  "k \<notin> fst ` set al \<Longrightarrow> AList.update k v al = al @ [(k, v)]"
  by (induction al) auto

section \<open>The base fields survive the evaluation columns\<close>

lemma fold_update_frame:
  "(\<forall>kv\<in>set d. f kv \<noteq> column) \<Longrightarrow>
   map_of (fold (\<lambda>kv. AList.update (f kv) (g kv)) d r) column = map_of r column"
  by (induction d arbitrary: r) (auto simp add: update_conv')

lemma add_eval_columns_frame:
  assumes "\<forall>x. column \<noteq> ''eval_'' @ x"
  shows "map_of (add_eval_columns eval_type result r) column = map_of r column"
proof -
  have a: "column \<noteq> ''eval_'' @ eval_type"
    and b: "column \<noteq> ''eval_'' @ eval_type @ ''_reason''"
    and c: "column \<noteq> ''eval_'' @ eval_type @ ''_which_one_executed''"
    and d: "column \<noteq> ''eval_'' @ eval_type @ ''_'' @ key" for key
    using assms by blast+
  have upd: "map_of (AList.update (''eval_'' @ eval_type) v r) column = map_of r column" for v
    using a by (simp add: update_conv')
  have cp1: "map_of (copy_if_present m k (''eval_'' @ eval_type @ ''_reason'') r') column =
             map_of r' column" for m k r'
    using b by (simp add: map_of_copy_if_present split: option.split)
  have cp2: "map_of (copy_if_present m k (''eval_'' @ eval_type @ ''_which_one_executed'') r') column =
             map_of r' column" for m k r'
    using c by (simp add: map_of_copy_if_present split: option.split)
  have fl: "map_of (fold (\<lambda>kv. AList.update (''eval_'' @ eval_type @ ''_'' @ fst kv)
                       (convert_bool_to_pass_fail_inner (snd kv))) m r) column = map_of r column" for m
    using d by (intro fold_update_frame) (metis)
  show ?thesis
    unfolding add_eval_columns_def
    by (simp only: upd cp1 cp2 fl split: if_split json.split option.split) simp
qed

lemma eval_pairs_frame:
  assumes "\<forall>x. column \<noteq> ''eval_'' @ x"
  shows "map_of (fold (\<lambda>kv. add_eval_columns (fst kv) (snd kv)) pairs r) column = map_of r column"
  by (induction pairs arbitrary: r) (simp_all add: add_eval_columns_frame [OF assms])






section \<open>When a record flattens\<close>

lemma has_key_path1: "has_key_path item [a] = (\<exists>v. getitem item a = Inr v)"
  by (cases item) (simp_all add: getitem_def split: option.split)

lemma has_key_path2: "has_key_path item [a, b] = (\<exists>v. getitem2 item a b = Inr v)"
proof (cases item)
  case (JObj d)
  show ?thesis
  proof (cases "map_of d a")
    case None
    with JObj show ?thesis by (simp add: getitem2_def getitem_def)
  next
    case (Some x)
    with JObj show ?thesis
      using has_key_path1 [of x b] by (simp add: getitem2_def getitem_def)
  qed
qed (simp_all add: getitem2_def getitem_def)

lemma getitem2_inner:
  "getitem2 item a b = Inr v \<Longrightarrow> \<exists>d. getitem item a = Inr (JObj d)"
  unfolding getitem2_def and_then_Inr_iff
  by (elim exE conjE, case_tac x) (simp_all add: getitem_def)

lemma base_record_ok_iff:
  "(\<exists>base. base_record py_repr item = Inr base) =
   ((\<exists>v. getitem2 item ''metadata'' ''timestamp'' = Inr v)
    \<and> (\<exists>runs joined. getitem2 item ''metadata'' ''evaluations_run'' = Inr runs
          \<and> str_join '', '' runs = Inr joined)
    \<and> (\<exists>v. getitem2 item ''input_data'' ''jid'' = Inr v)
    \<and> (\<exists>v. getitem2 item ''input_data'' ''aid'' = Inr v)
    \<and> (\<exists>v. getitem2 item ''input_data'' ''aligned'' = Inr v)
    \<and> (\<exists>v. getitem2 item ''input_data'' ''gold_aligned'' = Inr v)
    \<and> (\<exists>v. getitem2 item ''input_data'' ''title'' = Inr v)
    \<and> (\<exists>v. getitem item ''source_file'' = Inr v))"
proof
  assume "\<exists>base. base_record py_repr item = Inr base"
  then show "(\<exists>v. getitem2 item ''metadata'' ''timestamp'' = Inr v)
    \<and> (\<exists>runs joined. getitem2 item ''metadata'' ''evaluations_run'' = Inr runs
          \<and> str_join '', '' runs = Inr joined)
    \<and> (\<exists>v. getitem2 item ''input_data'' ''jid'' = Inr v)
    \<and> (\<exists>v. getitem2 item ''input_data'' ''aid'' = Inr v)
    \<and> (\<exists>v. getitem2 item ''input_data'' ''aligned'' = Inr v)
    \<and> (\<exists>v. getitem2 item ''input_data'' ''gold_aligned'' = Inr v)
    \<and> (\<exists>v. getitem2 item ''input_data'' ''title'' = Inr v)
    \<and> (\<exists>v. getitem item ''source_file'' = Inr v)"
    unfolding base_record_def and_then_Inr_iff by (elim exE conjE) simp
next
  assume ok: "(\<exists>v. getitem2 item ''metadata'' ''timestamp'' = Inr v)
    \<and> (\<exists>runs joined. getitem2 item ''metadata'' ''evaluations_run'' = Inr runs
          \<and> str_join '', '' runs = Inr joined)
    \<and> (\<exists>v. getitem2 item ''input_data'' ''jid'' = Inr v)
    \<and> (\<exists>v. getitem2 item ''input_data'' ''aid'' = Inr v)
    \<and> (\<exists>v. getitem2 item ''input_data'' ''aligned'' = Inr v)
    \<and> (\<exists>v. getitem2 item ''input_data'' ''gold_aligned'' = Inr v)
    \<and> (\<exists>v. getitem2 item ''input_data'' ''title'' = Inr v)
    \<and> (\<exists>v. getitem item ''source_file'' = Inr v)"
  then obtain jid where "getitem2 item ''input_data'' ''jid'' = Inr jid" by blast
  then obtain d where d: "getitem item ''input_data'' = Inr (JObj d)"
    using getitem2_inner by blast
  from ok show "\<exists>base. base_record py_repr item = Inr base"
    unfolding base_record_def by (elim exE conjE) (simp add: d dict_get_def)
qed

lemma dict_items_Inr_iff: "(dict_items v = Inr d) = (v = JObj d)"
  by (cases v) (simp_all add: dict_items_def)

lemma flatten_record_ok_iff:
  "(\<exists>row. flatten_record py_repr item = Inr row) = record_ok item"
proof -
  have "(\<exists>row. flatten_record py_repr item = Inr row) =
        ((\<exists>base. base_record py_repr item = Inr base)
         \<and> (\<exists>d. getitem item ''evaluation_results'' = Inr (JObj d)))"
    unfolding flatten_record_def and_then_Inr_iff dict_items_Inr_iff
    by auto
  also have "\<dots> = record_ok item"
    unfolding base_record_ok_iff record_ok_def required_keys_def
    by (simp only: list.pred_inject has_key_path1 has_key_path2)
       (auto split: sum.splits json.splits)
  finally show ?thesis .
qed

lemma flatten_record_fails_iff:
  "(\<exists>e. flatten_record py_repr item = Inl e) = (\<not> record_ok item)"
  using flatten_record_ok_iff [of py_repr item]
  by (cases "flatten_record py_repr item") simp_all

section \<open>The example records\<close>

lemma example_base_record:
  "base_record py_repr (example_record jid results) = Inr (example_base (str_upper jid))"
  by (simp add: base_record_def example_record_def example_base_def getitem2_def getitem_def
      dict_get_def str_join_def py_iter_def py_str_def)

lemma example_results:
  "getitem (example_record jid results) ''evaluation_results'' = Inr (JObj results)"
  by (simp add: example_record_def getitem_def)

lemma example_flatten:
  "flatten_record py_repr (example_record jid []) = Inr (example_base (str_upper jid))"
  by (simp add: flatten_record_def example_base_record example_results dict_items_def)

lemma str_upper_examples:
  "str_upper ''b'' = ''B''" "str_upper ''a'' = ''A''" "str_upper ''aBc-12'' = ''ABC-12''"
  "str_upper ''abc-12'' = ''ABC-12''"
  by (simp_all add: str_upper_def upper_char_def ascii_uppercase_def ascii_lowercase_def)

section \<open>The claims\<close>

subsection \<open>The normalizer's values\<close>

text \<open>
  C1. Both normalizers send \<open>true\<close> and every case variant of ``true'' and ``pass'' to
  exactly ``Pass'', \<open>false\<close> and every case variant of ``false'' and ``fail'' to exactly
  ``Fail'', and return every other string and every value that is neither a boolean nor
  a string unchanged.
\<close>

theorem normalizer_pass_fail:
  "convert_bool_to_pass_fail_inner (JBool True) = JStr ''Pass''
   \<and> convert_bool_to_pass_fail (JBool True) = JStr ''Pass''
   \<and> convert_bool_to_pass_fail_inner (JBool False) = JStr ''Fail''
   \<and> convert_bool_to_pass_fail (JBool False) = JStr ''Fail''
   \<and> (case_variant s ''true'' \<or> case_variant s ''pass'' \<longrightarrow>
        convert_bool_to_pass_fail_inner (JStr s) = JStr ''Pass''
        \<and> convert_bool_to_pass_fail (JStr s) = JStr ''Pass'')
   \<and> (case_variant s ''false'' \<or> case_variant s ''fail'' \<longrightarrow>
        convert_bool_to_pass_fail_inner (JStr s) = JStr ''Fail''
        \<and> convert_bool_to_pass_fail (JStr s) = JStr ''Fail'')
   \<and> (\<not> case_variant s ''true'' \<and> \<not> case_variant s ''pass''
        \<and> \<not> case_variant s ''false'' \<and> \<not> case_variant s ''fail'' \<longrightarrow>
        convert_bool_to_pass_fail_inner (JStr s) = JStr s
        \<and> convert_bool_to_pass_fail (JStr s) = JStr s)
   \<and> ((\<forall>b. v \<noteq> JBool b) \<and> (\<forall>t. v \<noteq> JStr t) \<longrightarrow>
        convert_bool_to_pass_fail_inner v = v \<and> convert_bool_to_pass_fail v = v)"
proof -
  have bools: "convert_bool_to_pass_fail_inner (JBool True) = JStr ''Pass''"
    "convert_bool_to_pass_fail_inner (JBool False) = JStr ''Fail''"
    by (simp_all add: convert_bool_to_pass_fail_inner_def)
  have "case_variant s ''true'' \<Longrightarrow> \<not> case_variant s ''false''"
    and "case_variant s ''true'' \<Longrightarrow> \<not> case_variant s ''fail''"
    and "case_variant s ''pass'' \<Longrightarrow> \<not> case_variant s ''false''"
    and "case_variant s ''pass'' \<Longrightarrow> \<not> case_variant s ''fail''"
    by (simp_all add: case_variant_iff str_lower_words)
  then show ?thesis
    by (simp add: normalizers_agree bools inner_on_strings inner_on_others)
qed

theorem normalizer_pass_fail_witness:
  "case_variant ''TrUe'' ''true''
   \<and> convert_bool_to_pass_fail_inner (JStr ''TrUe'') = JStr ''Pass''
   \<and> convert_bool_to_pass_fail (JStr ''TrUe'') = JStr ''Pass''
   \<and> case_variant ''pASS'' ''pass''
   \<and> convert_bool_to_pass_fail_inner (JStr ''pASS'') = JStr ''Pass''
   \<and> convert_bool_to_pass_fail (JStr ''pASS'') = JStr ''Pass''
   \<and> case_variant ''FALSE'' ''false''
   \<and> convert_bool_to_pass_fail (JStr ''FALSE'') = JStr ''Fail''
   \<and> case_variant ''fail'' ''fail''
   \<and> convert_bool_to_pass_fail_inner (JStr ''fail'') = JStr ''Fail''
   \<and> convert_bool_to_pass_fail (JStr ''fail'') = JStr ''Fail''
   \<and> convert_bool_to_pass_fail_inner (JStr ''maybe'') = JStr ''maybe''
   \<and> convert_bool_to_pass_fail (JStr ''maybe'') = JStr ''maybe''
   \<and> convert_bool_to_pass_fail_inner (JFloat (1 / 2)) = JFloat (1 / 2)
   \<and> convert_bool_to_pass_fail (JObj [(''score'', JInt 3)]) = JObj [(''score'', JInt 3)]"
proof -
  have cv: "case_variant ''TrUe'' ''true''" "case_variant ''pASS'' ''pass''"
    "case_variant ''FALSE'' ''false''" "case_variant ''fail'' ''fail''"
    "\<not> case_variant ''maybe'' ''true''" "\<not> case_variant ''maybe'' ''pass''"
    "\<not> case_variant ''maybe'' ''false''" "\<not> case_variant ''maybe'' ''fail''"
    by (simp_all add: case_variant_def case_tables)
  show ?thesis
    using cv normalizer_pass_fail [of "''TrUe''" "JFloat (1 / 2)"]
      normalizer_pass_fail [of "''pASS''" "JObj [(''score'', JInt 3)]"]
      normalizer_pass_fail [of "''FALSE''" JNull]
      normalizer_pass_fail [of "''fail''" JNull]
      normalizer_pass_fail [of "''maybe''" JNull]
    by simp
qed

subsection \<open>The grounded rule\<close>

text \<open>
  C2. For a kind other than \<open>decision_accuracy\<close> whose result is a mapping with the key
  \<open>grounded\<close>, the loop body writes \<open>eval_<kind>\<close> with the normalized \<open>grounded\<close> value
  and, exactly when \<open>reason\<close> is present, \<open>eval_<kind>_reason\<close> with the reason as it is.
  Nothing else is written, whatever other keys the mapping has: the rules for
  \<open>Eval_Status\<close> and \<open>negation_pass\<close> do not run.
\<close>

theorem grounded_rule:
  assumes "eval_type \<noteq> ''decision_accuracy''"
    and "map_of d ''grounded'' = Some grounded"
  shows "add_eval_columns eval_type (JObj d) r =
           (case map_of d ''reason'' of
              None \<Rightarrow>
                AList.update (''eval_'' @ eval_type) (convert_bool_to_pass_fail_inner grounded) r
            | Some reason \<Rightarrow>
                AList.update (''eval_'' @ eval_type @ ''_reason'') reason
                  (AList.update (''eval_'' @ eval_type)
                     (convert_bool_to_pass_fail_inner grounded) r))
         \<and> map_of (add_eval_columns eval_type (JObj d) r) column =
           (if column = ''eval_'' @ eval_type then Some (convert_bool_to_pass_fail_inner grounded)
            else if column = ''eval_'' @ eval_type @ ''_reason'' \<and> map_of d ''reason'' \<noteq> None
              then map_of d ''reason''
            else map_of r column)"
  using assms
  by (auto simp add: add_eval_columns_def copy_if_present_def update_conv' split: option.split)

theorem grounded_rule_witness:
  "''groundedness'' \<noteq> ''decision_accuracy''
   \<and> map_of [(''Eval_Status'', JBool True), (''which_one_executed'', JStr ''second''),
             (''grounded'', JBool False), (''reason'', JStr ''missing citation'')] ''grounded'' =
       Some (JBool False)
   \<and> add_eval_columns ''groundedness''
       (JObj [(''Eval_Status'', JBool True), (''which_one_executed'', JStr ''second''),
              (''grounded'', JBool False), (''reason'', JStr ''missing citation'')]) [] =
     [(''eval_groundedness'', JStr ''Fail''),
      (''eval_groundedness_reason'', JStr ''missing citation'')]
   \<and> add_eval_columns ''groundedness'' (JObj [(''grounded'', JStr ''TRUE'')]) [] =
     [(''eval_groundedness'', JStr ''Pass'')]
   \<and> flatten_record (\<lambda>v. [])
       (example_record ''AB''
          [(''groundedness'',
            JObj [(''grounded'', JBool False), (''reason'', JStr ''missing citation'')])]) =
     Inr (example_base ''AB'' @
          [(''eval_groundedness'', JStr ''Fail''),
           (''eval_groundedness_reason'', JStr ''missing citation'')])"
proof -
  have h: "''groundedness'' \<noteq> ''decision_accuracy''" by simp
  show ?thesis
    using h
      grounded_rule [OF h, of "[(''Eval_Status'', JBool True), (''which_one_executed'', JStr ''second''),
              (''grounded'', JBool False), (''reason'', JStr ''missing citation'')]" "JBool False" "[]" "[]"]
      grounded_rule [OF h, of "[(''grounded'', JStr ''TRUE'')]" "JStr ''TRUE''" "[]" "[]"]
      grounded_rule [OF h, of "[(''grounded'', JBool False), (''reason'', JStr ''missing citation'')]"
        "JBool False" "example_base ''AB''" "[]"]
      example_base_record [of "\<lambda>v. []" "''AB''"]
    by (simp add: convert_bool_to_pass_fail_inner_def str_lower_def lower_char_def
        ascii_uppercase_def ascii_lowercase_def flatten_record_def example_results
        dict_items_def str_upper_def upper_char_def example_base_def)
qed

subsection \<open>The decision accuracy rule\<close>

text \<open>
  C3. For the kind \<open>decision_accuracy\<close> the loop body writes the one column
  \<open>eval_decision_accuracy\<close>, with the normalized result, whatever the shape of the
  result; no other column changes, so no \<open>_reason\<close> or \<open>_which_one_executed\<close> column is
  written for it. A record whose only evaluation is \<open>decision_accuracy\<close> flattens to its
  base fields followed by that one column.
\<close>

theorem decision_accuracy_rule:
  "add_eval_columns ''decision_accuracy'' result r =
     AList.update ''eval_decision_accuracy'' (convert_bool_to_pass_fail_inner result) r
   \<and> map_of (add_eval_columns ''decision_accuracy'' result r) column =
       (if column = ''eval_decision_accuracy'' then Some (convert_bool_to_pass_fail_inner result)
        else map_of r column)
   \<and> (base_record py_repr item = Inr base
       \<and> getitem item ''evaluation_results'' = Inr (JObj [(''decision_accuracy'', result)]) \<longrightarrow>
       flatten_record py_repr item =
         Inr (base @ [(''eval_decision_accuracy'', convert_bool_to_pass_fail_inner result)]))"
proof -
  have step: "add_eval_columns ''decision_accuracy'' result r =
     AList.update ''eval_decision_accuracy'' (convert_bool_to_pass_fail_inner result) r" for r
    by (simp add: add_eval_columns_def)
  have "flatten_record py_repr item =
         Inr (base @ [(''eval_decision_accuracy'', convert_bool_to_pass_fail_inner result)])"
    if base: "base_record py_repr item = Inr base"
      and res: "getitem item ''evaluation_results'' = Inr (JObj [(''decision_accuracy'', result)])"
  proof -
    have "''eval_decision_accuracy'' \<notin> set (map fst base)"
      unfolding base_record_keys [OF base] by simp
    then have "''eval_decision_accuracy'' \<notin> fst ` set base"
      by simp
    then have "AList.update ''eval_decision_accuracy'' v base =
               base @ [(''eval_decision_accuracy'', v)]" for v
      by (rule update_fresh)
    with base res show ?thesis
      by (simp add: flatten_record_def dict_items_def step)
  qed
  with step show ?thesis
    by (simp add: update_conv')
qed

theorem decision_accuracy_rule_witness:
  "base_record (\<lambda>v. []) (example_record ''AB'' [(''decision_accuracy'', JBool True)]) =
     Inr (example_base ''AB'')
   \<and> getitem (example_record ''AB'' [(''decision_accuracy'', JBool True)]) ''evaluation_results'' =
     Inr (JObj [(''decision_accuracy'', JBool True)])
   \<and> flatten_record (\<lambda>v. []) (example_record ''AB'' [(''decision_accuracy'', JBool True)]) =
     Inr (example_base ''AB'' @ [(''eval_decision_accuracy'', JStr ''Pass'')])
   \<and> add_eval_columns ''decision_accuracy''
       (JObj [(''grounded'', JBool False), (''reason'', JStr ''none'')]) [] =
     [(''eval_decision_accuracy'', JObj [(''grounded'', JBool False), (''reason'', JStr ''none'')])]"
proof -
  have base: "base_record (\<lambda>v. []) (example_record ''AB'' [(''decision_accuracy'', JBool True)]) =
     Inr (example_base ''AB'')"
    using example_base_record [of "\<lambda>v. []" "''AB''"]
    by (simp add: str_upper_def upper_char_def ascii_uppercase_def ascii_lowercase_def)
  show ?thesis
    using base example_results [of "''AB''" "[(''decision_accuracy'', JBool True)]"]
      decision_accuracy_rule [of "JBool True" "[]" "''eval_decision_accuracy_reason''"
        "\<lambda>v. []" "example_record ''AB'' [(''decision_accuracy'', JBool True)]" "example_base ''AB''"]
      decision_accuracy_rule [of "JObj [(''grounded'', JBool False), (''reason'', JStr ''none'')]"
        "[]" "''eval_decision_accuracy_reason''" "\<lambda>v. []" JNull "[]"]
    by (simp add: convert_bool_to_pass_fail_inner_def)
qed

subsection \<open>Mappings without a recognized key\<close>

text \<open>
  C4. For a kind other than \<open>decision_accuracy\<close> whose result is a mapping with none of
  the keys \<open>grounded\<close>, \<open>Eval_Status\<close>, \<open>negation_pass\<close>, the loop body writes, for every
  pair of the mapping, the column \<open>eval_<kind>_<subkey>\<close> with the normalized subvalue,
  and no other column. A subvalue that is itself a mapping is written as it is: the
  flattening is one level deep.
\<close>

theorem other_mapping_rule:
  assumes "eval_type \<noteq> ''decision_accuracy''"
    and "map_of d ''grounded'' = None"
    and "map_of d ''Eval_Status'' = None"
    and "map_of d ''negation_pass'' = None"
    and "distinct (map fst d)"
  shows "map_of (add_eval_columns eval_type (JObj d) r) =
           map_of r ++ map_of (map (\<lambda>kv. (''eval_'' @ eval_type @ ''_'' @ fst kv,
                                            convert_bool_to_pass_fail_inner (snd kv))) d)
         \<and> (\<forall>kv\<in>set d. map_of (add_eval_columns eval_type (JObj d) r)
                            (''eval_'' @ eval_type @ ''_'' @ fst kv) =
                          Some (convert_bool_to_pass_fail_inner (snd kv)))
         \<and> (\<forall>subkey nested. (subkey, JObj nested) \<in> set d \<longrightarrow>
              map_of (add_eval_columns eval_type (JObj d) r)
                (''eval_'' @ eval_type @ ''_'' @ subkey) = Some (JObj nested))
         \<and> (column \<notin> (\<lambda>kv. ''eval_'' @ eval_type @ ''_'' @ fst kv) ` set d \<longrightarrow>
              map_of (add_eval_columns eval_type (JObj d) r) column = map_of r column)"
proof -
  define col where "col = (\<lambda>key. ''eval_'' @ eval_type @ ''_'' @ key)"
  define m where "m = (\<lambda>kv::string \<times> json. (col (fst kv), convert_bool_to_pass_fail_inner (snd kv)))"
  define row where "row = add_eval_columns eval_type (JObj d) r"
  have "row = fold (\<lambda>kv. AList.update (''eval_'' @ eval_type @ ''_'' @ fst kv)
                        (convert_bool_to_pass_fail_inner (snd kv))) d r"
    unfolding row_def using assms(1-4) by (simp add: add_eval_columns_def)
  then have eq: "map_of row = map_of r ++ map_of (map m d)"
    unfolding m_def col_def by (simp only: other_mapping_columns [OF assms(5)])
  have "inj col"
    unfolding col_def by (rule injI) simp
  then have "distinct (map col (map fst d))"
    using assms(5) by (simp add: distinct_map inj_on_def)
  then have dist: "distinct (map fst (map m d))"
    by (simp add: comp_def m_def)
  have each: "map_of row (col (fst kv)) = Some (convert_bool_to_pass_fail_inner (snd kv))"
    if "kv \<in> set d" for kv
  proof -
    from that have "(col (fst kv), convert_bool_to_pass_fail_inner (snd kv)) \<in> set (map m d)"
      by (auto simp add: m_def)
    with dist have "map_of (map m d) (col (fst kv)) = Some (convert_bool_to_pass_fail_inner (snd kv))"
      by (rule map_of_is_SomeI)
    then show ?thesis by (simp only: eq map_add_find_right)
  qed
  have nested: "map_of row (col subkey) = Some (JObj nested)"
    if "(subkey, JObj nested) \<in> set d" for subkey nested
    using each [OF that] by (simp add: convert_bool_to_pass_fail_inner_def)
  have frame: "map_of row column = map_of r column"
    if "column \<notin> (\<lambda>kv. col (fst kv)) ` set d"
  proof -
    have "fst ` set (map m d) = (\<lambda>kv. col (fst kv)) ` set d"
      by (simp add: m_def image_image)
    with that have "map_of (map m d) column = None"
      by (simp only: map_of_eq_None_iff not_False_eq_True)
    then show ?thesis by (simp only: eq map_add_def option.case)
  qed
  have "map_of row = map_of r ++ map_of (map m d)
        \<and> (\<forall>kv\<in>set d. map_of row (col (fst kv)) = Some (convert_bool_to_pass_fail_inner (snd kv)))
        \<and> (\<forall>subkey nested. (subkey, JObj nested) \<in> set d \<longrightarrow>
              map_of row (col subkey) = Some (JObj nested))
        \<and> (column \<notin> (\<lambda>kv. col (fst kv)) ` set d \<longrightarrow> map_of row column = map_of r column)"
    using eq each nested frame by (intro conjI ballI allI impI)
  then show ?thesis
    unfolding row_def m_def col_def .
qed

theorem other_mapping_rule_witness:
  "''custom_check'' \<noteq> ''decision_accuracy''
   \<and> distinct (map fst [(''score'', JFloat (1 / 2)), (''notes'', JStr ''ok''),
                        (''passed'', JBool True), (''detail'', JObj [(''grounded'', JBool True)])])
   \<and> map_of [(''score'', JFloat (1 / 2)), (''notes'', JStr ''ok''),
              (''passed'', JBool True), (''detail'', JObj [(''grounded'', JBool True)])]
        ''grounded'' = None
   \<and> map_of (add_eval_columns ''custom_check''
        (JObj [(''score'', JFloat (1 / 2)), (''notes'', JStr ''ok''),
               (''passed'', JBool True), (''detail'', JObj [(''grounded'', JBool True)])]) [])
     = map_of [(''eval_custom_check_score'', JFloat (1 / 2)),
               (''eval_custom_check_notes'', JStr ''ok''),
               (''eval_custom_check_passed'', JStr ''Pass''),
               (''eval_custom_check_detail'', JObj [(''grounded'', JBool True)])]
   \<and> flatten_record (\<lambda>v. [])
       (example_record ''AB''
          [(''custom_check'', JObj [(''score'', JFloat (1 / 2)), (''notes'', JStr ''ok'')])]) =
     Inr (example_base ''AB'' @
          [(''eval_custom_check_score'', JFloat (1 / 2)),
           (''eval_custom_check_notes'', JStr ''ok'')])"
proof -
  have h: "''custom_check'' \<noteq> ''decision_accuracy''" by simp
  have d: "distinct (map fst [(''score'', JFloat (1 / 2)), (''notes'', JStr ''ok''),
                        (''passed'', JBool True), (''detail'', JObj [(''grounded'', JBool True)])])"
    by simp
  show ?thesis
    using h d
      other_mapping_rule [OF h _ _ _ d, of "[]" "[]"]
      example_base_record [of "\<lambda>v. []" "''AB''"]
    by (simp add: convert_bool_to_pass_fail_inner_def str_lower_def lower_char_def
        ascii_uppercase_def ascii_lowercase_def flatten_record_def example_results
        dict_items_def str_upper_def upper_char_def example_base_def add_eval_columns_def)
qed

subsection \<open>One row per record, in order\<close>

text \<open>
  C5. When the data is a sequence of records, the load returns \<open>rows\<close> exactly when
  \<open>rows\<close> lists the flattenings of the records, one row per record and in the records'
  order; nothing is dropped, merged or reordered. In particular the load of valid records
  succeeds, with as many rows as records.
\<close>

theorem rows_follow_records:
  assumes "read_data uploaded_file default_file = Inr (JArr items)"
  shows "(load_json_data py_repr uploaded_file default_file = Inr rows) =
           (map (flatten_record py_repr) items = map Inr rows)
         \<and> (load_json_data py_repr uploaded_file default_file = Inr rows \<longrightarrow>
              length rows = length items
              \<and> (\<forall>i<length items. flatten_record py_repr (items ! i) = Inr (rows ! i)))"
proof -
  have eq: "(load_json_data py_repr uploaded_file default_file = Inr rows) =
           (map (flatten_record py_repr) items = map Inr rows)"
    using assms by (simp add: load_json_data_def py_iter_def load_loop_Inr_iff)
  have "length rows = length items
        \<and> (\<forall>i<length items. flatten_record py_repr (items ! i) = Inr (rows ! i))"
    if "map (flatten_record py_repr) items = map Inr rows"
  proof -
    from that have len: "length items = length rows"
      by (metis length_map)
    moreover have "flatten_record py_repr (items ! i) = Inr (rows ! i)" if "i < length items" for i
    proof -
      have "map (flatten_record py_repr) items ! i = map Inr rows ! i"
        using \<open>map (flatten_record py_repr) items = map Inr rows\<close> by simp
      then show ?thesis using that len by simp
    qed
    ultimately show ?thesis by simp
  qed
  with eq show ?thesis by blast
qed

theorem rows_follow_records_witness:
  "read_data (Some (Inr (JArr [example_record ''b'' [], example_record ''a'' [],
                               example_record ''b'' []]))) None =
     Inr (JArr [example_record ''b'' [], example_record ''a'' [], example_record ''b'' []])
   \<and> load_json_data (\<lambda>v. [])
        (Some (Inr (JArr [example_record ''b'' [], example_record ''a'' [],
                          example_record ''b'' []]))) None =
     Inr [example_base ''B'', example_base ''A'', example_base ''B'']
   \<and> length [example_base ''B'', example_base ''A'', example_base ''B''] = 3"
proof -
  have h: "read_data (Some (Inr (JArr [example_record ''b'' [], example_record ''a'' [],
                               example_record ''b'' []]))) None =
     Inr (JArr [example_record ''b'' [], example_record ''a'' [], example_record ''b'' []])"
    by (simp add: read_data_def)
  show ?thesis
    using h rows_follow_records [OF h, of "\<lambda>v. []"
        "[example_base ''B'', example_base ''A'', example_base ''B'']"]
    by (simp add: example_flatten str_upper_examples)
qed

subsection \<open>Missing keys\<close>

text \<open>
  C6. When the data is a sequence of records and some record lacks a required key, the
  load ends in an error: its result is the error alone, with no row of any record. A
  sequence of well-formed records loads; being well-formed asks for the required keys,
  a joinable \<^verbatim>\<open>evaluations_run\<close> and a mapping of results, and for neither
  \<^verbatim>\<open>rationale\<close> nor \<^verbatim>\<open>reason\<close>, so their absence is never an error.
\<close>

theorem missing_required_key_fails_load:
  assumes "read_data uploaded_file default_file = Inr (JArr items)"
  shows "((\<exists>item\<in>set items. \<exists>path\<in>set required_keys. \<not> has_key_path item path) \<longrightarrow>
            (\<exists>e. load_json_data py_repr uploaded_file default_file = Inl e))
         \<and> ((\<forall>item\<in>set items. record_ok item) \<longrightarrow>
            (\<exists>rows. load_json_data py_repr uploaded_file default_file = Inr rows))
         \<and> ((\<exists>e. load_json_data py_repr uploaded_file default_file = Inl e) =
            (\<exists>item\<in>set items. \<not> record_ok item))"
proof -
  have load: "load_json_data py_repr uploaded_file default_file = load_loop py_repr items []"
    using assms by (simp add: load_json_data_def py_iter_def)
  have fails: "(\<exists>e. load_json_data py_repr uploaded_file default_file = Inl e) =
            (\<exists>item\<in>set items. \<not> record_ok item)"
    unfolding load load_loop_Inl_iff flatten_record_fails_iff ..
  have lacks: "\<not> record_ok item" if "path \<in> set required_keys" "\<not> has_key_path item path"
    for item path
    using that unfolding record_ok_def by (auto simp add: list_all_iff)
  have loads: "\<exists>rows. load_json_data py_repr uploaded_file default_file = Inr rows"
    if "\<forall>item\<in>set items. record_ok item"
  proof (cases "load_json_data py_repr uploaded_file default_file")
    case (Inl e)
    with fails that show ?thesis by blast
  next
    case (Inr rows)
    then show ?thesis by blast
  qed
  from fails lacks loads show ?thesis by blast
qed

theorem missing_required_key_fails_load_witness:
  "read_data (Some (Inr (JArr [example_record ''ab'' [], example_without_jid]))) None =
     Inr (JArr [example_record ''ab'' [], example_without_jid])
   \<and> example_without_jid \<in> set [example_record ''ab'' [], example_without_jid]
   \<and> [''input_data'', ''jid''] \<in> set required_keys
   \<and> \<not> has_key_path example_without_jid [''input_data'', ''jid'']
   \<and> (\<exists>e. load_json_data (\<lambda>v. [])
              (Some (Inr (JArr [example_record ''ab'' [], example_without_jid]))) None = Inl e)
   \<and> read_data None
        (Some (Inr (JArr [example_record ''ab''
                            [(''groundedness'', JObj [(''grounded'', JBool True)])]]))) =
     Inr (JArr [example_record ''ab'' [(''groundedness'', JObj [(''grounded'', JBool True)])]])
   \<and> record_ok (example_record ''ab'' [(''groundedness'', JObj [(''grounded'', JBool True)])])
   \<and> (\<exists>rows. load_json_data (\<lambda>v. []) None
        (Some (Inr (JArr [example_record ''ab''
                            [(''groundedness'', JObj [(''grounded'', JBool True)])]]))) =
        Inr rows)"
proof -
  have bad: "read_data (Some (Inr (JArr [example_record ''ab'' [], example_without_jid]))) None =
     Inr (JArr [example_record ''ab'' [], example_without_jid])"
    by (simp add: read_data_def)
  have good: "read_data None
        (Some (Inr (JArr [example_record ''ab''
                            [(''groundedness'', JObj [(''grounded'', JBool True)])]]))) =
     Inr (JArr [example_record ''ab'' [(''groundedness'', JObj [(''grounded'', JBool True)])]])"
    by (simp add: read_data_def)
  have key: "[''input_data'', ''jid''] \<in> set required_keys"
    by (simp add: required_keys_def)
  have lacks: "\<not> has_key_path example_without_jid [''input_data'', ''jid'']"
    by (simp add: example_without_jid_def)
  have ok: "record_ok (example_record ''ab'' [(''groundedness'', JObj [(''grounded'', JBool True)])])"
    by (simp add: record_ok_def required_keys_def example_record_def getitem2_def getitem_def
        str_join_def py_iter_def)
  show ?thesis
    using bad good key lacks ok
      missing_required_key_fails_load [OF bad, of "\<lambda>v. []"]
      missing_required_key_fails_load [OF good, of "\<lambda>v. []"]
    by (simp del: has_key_path.simps) blast
qed

subsection \<open>The journal id\<close>



subsection \<open>No file\<close>

text \<open>
  C8. With no uploaded file and no default file the load returns the empty table, not an
  error.
\<close>

theorem no_file_gives_empty_table:
  "load_json_data py_repr None None = Inr []"
  by (simp add: load_json_data_def read_data_def py_iter_def)

subsection \<open>The two normalizers agree\<close>

text \<open>
  C9, as amended. The two normalizers are extensionally equal: for a case variant of
  ``pass'' or ``fail'' the local one returns the literal and the module-level one returns
  \<^verbatim>\<open>value.title()\<close>, and both are the title-cased word. Neither returns the original
  casing.
\<close>

theorem normalizers_extensionally_equal:
  "convert_bool_to_pass_fail_inner v = convert_bool_to_pass_fail v"
proof (cases v)
  case (JStr s)
  have pass: "str_title s = ''Pass''" if "str_lower s = ''pass''"
    using that by (rule str_title_pass)
  have fail: "str_title s = ''Fail''" if "str_lower s = ''fail''"
    using that by (rule str_title_fail)
  show ?thesis
    unfolding JStr
    by (auto simp add: convert_bool_to_pass_fail_def convert_bool_to_pass_fail_inner_def
        Let_def pass fail)
qed (simp_all add: convert_bool_to_pass_fail_def convert_bool_to_pass_fail_inner_def)

text \<open>
  The claim C9 as stated, that some case variant of ``pass'' or ``fail'' tells the two
  normalizers apart, is false: on the lower-case ``pass'' both return ``Pass'', on
  ``FAIL'' both return ``Fail'', and no case variant separates them.
\<close>

theorem normalizers_differ_counterexample:
  "convert_bool_to_pass_fail_inner (JStr ''pass'') = JStr ''Pass''
   \<and> convert_bool_to_pass_fail (JStr ''pass'') = JStr ''Pass''
   \<and> convert_bool_to_pass_fail_inner (JStr ''FAIL'') = JStr ''Fail''
   \<and> convert_bool_to_pass_fail (JStr ''FAIL'') = JStr ''Fail''
   \<and> \<not> (\<exists>s. (case_variant s ''pass'' \<or> case_variant s ''fail'')
          \<and> convert_bool_to_pass_fail_inner (JStr s) \<noteq> convert_bool_to_pass_fail (JStr s))"
  by (simp add: normalizers_agree convert_bool_to_pass_fail_inner_def str_lower_def
      lower_char_def ascii_uppercase_def ascii_lowercase_def)

subsection \<open>Idempotence\<close>

text \<open>
  C10. Each normalizer is idempotent, and the module-level normalizer, which the detail
  view applies to the columns the local one has filled, leaves a normalized value as it
  is.
\<close>

theorem normalizer_idempotent:
  "convert_bool_to_pass_fail_inner (convert_bool_to_pass_fail_inner v) =
     convert_bool_to_pass_fail_inner v
   \<and> convert_bool_to_pass_fail (convert_bool_to_pass_fail v) = convert_bool_to_pass_fail v
   \<and> convert_bool_to_pass_fail (convert_bool_to_pass_fail_inner v) =
     convert_bool_to_pass_fail_inner v"
  by (simp add: normalizers_agree inner_idempotent)

lemma base_record_rationale:
  assumes "base_record py_repr item = Inr base"
  shows "\<exists>d. getitem item ''input_data'' = Inr (JObj d)
           \<and> map_of base ''rationale'' =
               Some (case map_of d ''rationale'' of None \<Rightarrow> JStr ''N/A'' | Some v \<Rightarrow> v)"
proof -
  from assms obtain input_data rationale
    where i: "getitem item ''input_data'' = Inr input_data"
      and g: "dict_get input_data ''rationale'' (JStr ''N/A'') = Inr rationale"
      and r: "map_of base ''rationale'' = Some rationale"
    unfolding base_record_def and_then_Inr_iff by (elim exE conjE) auto
  from g obtain d where "input_data = JObj d"
    and "rationale = (case map_of d ''rationale'' of None \<Rightarrow> JStr ''N/A'' | Some v \<Rightarrow> v)"
    by (cases input_data) (simp_all add: dict_get_def)
  with i r show ?thesis by simp
qed

subsection \<open>Further properties of the flattener\<close>

text \<open>
  X1. The row of a record is its base fields run through the loop body once per
  evaluation pair, in the order of the pairs; a column keeps what one pair wrote unless
  a later pair writes a column of the same name.
\<close>

theorem column_kept_by_later_pairs:
  assumes "flatten_record py_repr item = Inr row"
    and "getitem item ''evaluation_results'' = Inr (JObj (before @ (eval_type, result) # later))"
    and "\<forall>kv\<in>set later. \<forall>r. map_of (add_eval_columns (fst kv) (snd kv) r) column = map_of r column"
  shows "\<exists>base. base_record py_repr item = Inr base
           \<and> row = fold (\<lambda>kv. add_eval_columns (fst kv) (snd kv))
                     (before @ (eval_type, result) # later) base
           \<and> map_of row column =
               map_of (add_eval_columns eval_type result
                         (fold (\<lambda>kv. add_eval_columns (fst kv) (snd kv)) before base)) column"
proof -
  from assms(1,2) obtain base where base: "base_record py_repr item = Inr base"
    and row: "row = fold (\<lambda>kv. add_eval_columns (fst kv) (snd kv))
                     (before @ (eval_type, result) # later) base"
    unfolding flatten_record_def and_then_Inr_iff dict_items_Inr_iff by auto
  have keep: "map_of (fold (\<lambda>kv. add_eval_columns (fst kv) (snd kv)) later r) column =
              map_of r column" for r
    using assms(3) by (induction later arbitrary: r) simp_all
  from base row keep show ?thesis by simp
qed

theorem column_kept_by_later_pairs_witness:
  "flatten_record (\<lambda>v. [])
     (example_record ''AB'' [(''decision_accuracy'', JBool True), (''negation'', JBool False)]) =
     Inr (example_base ''AB'' @
          [(''eval_decision_accuracy'', JStr ''Pass''), (''eval_negation'', JStr ''Fail'')])
   \<and> map_of (example_base ''AB'' @
          [(''eval_decision_accuracy'', JStr ''Pass''), (''eval_negation'', JStr ''Fail'')])
        ''eval_decision_accuracy'' = Some (JStr ''Pass'')
   \<and> flatten_record (\<lambda>v. [])
     (example_record ''AB''
        [(''decision_accuracy'', JBool True), (''decision'', JObj [(''accuracy'', JStr ''no'')])]) =
     Inr (example_base ''AB'' @ [(''eval_decision_accuracy'', JStr ''no'')])"
proof -
  have h: "flatten_record (\<lambda>v. [])
     (example_record ''AB'' [(''decision_accuracy'', JBool True), (''negation'', JBool False)]) =
     Inr (example_base ''AB'' @
          [(''eval_decision_accuracy'', JStr ''Pass''), (''eval_negation'', JStr ''Fail'')])"
    using example_base_record [of "\<lambda>v. []" "''AB''"]
    by (simp add: flatten_record_def example_results dict_items_def add_eval_columns_def
        convert_bool_to_pass_fail_inner_def str_upper_def upper_char_def ascii_uppercase_def
        ascii_lowercase_def example_base_def)
  have g: "getitem (example_record ''AB''
             [(''decision_accuracy'', JBool True), (''negation'', JBool False)])
             ''evaluation_results'' =
           Inr (JObj ([] @ (''decision_accuracy'', JBool True) # [(''negation'', JBool False)]))"
    by (simp add: example_results)
  have l: "\<forall>kv\<in>set [(''negation'', JBool False)].
             \<forall>r. map_of (add_eval_columns (fst kv) (snd kv) r) ''eval_decision_accuracy'' =
                  map_of r ''eval_decision_accuracy''"
    by (simp add: add_eval_columns_def update_conv')
  have c: "flatten_record (\<lambda>v. [])
     (example_record ''AB''
        [(''decision_accuracy'', JBool True), (''decision'', JObj [(''accuracy'', JStr ''no'')])]) =
     Inr (example_base ''AB'' @ [(''eval_decision_accuracy'', JStr ''no'')])"
    using example_base_record [of "\<lambda>v. []" "''AB''"]
    by (simp add: flatten_record_def example_results dict_items_def add_eval_columns_def
        convert_bool_to_pass_fail_inner_def str_upper_def upper_char_def ascii_uppercase_def
        ascii_lowercase_def example_base_def str_lower_def lower_char_def)
  show ?thesis
    using h c column_kept_by_later_pairs [OF h g l]
    by (simp add: example_base_def)
qed

text \<open>
  X2. The \<open>rationale\<close> field of a flattened row is the record's rationale, or ``N/A''
  when \<^verbatim>\<open>input_data\<close> has none.
\<close>

theorem rationale_default:
  assumes "flatten_record py_repr item = Inr row"
  shows "\<exists>d. getitem item ''input_data'' = Inr (JObj d)
           \<and> map_of row ''rationale'' =
               Some (case map_of d ''rationale'' of None \<Rightarrow> JStr ''N/A'' | Some v \<Rightarrow> v)"
proof -
  from assms obtain base pairs where base: "base_record py_repr item = Inr base"
    and row: "row = fold (\<lambda>kv. add_eval_columns (fst kv) (snd kv)) pairs base"
    unfolding flatten_record_def and_then_Inr_iff by auto
  have "\<forall>x. ''rationale'' \<noteq> ''eval_'' @ x" by simp
  then have "map_of row ''rationale'' = map_of base ''rationale''"
    unfolding row by (rule eval_pairs_frame)
  with base_record_rationale [OF base] show ?thesis by simp
qed

theorem rationale_default_witness:
  "flatten_record (\<lambda>v. []) (example_record ''AB'' []) = Inr (example_base ''AB'')
   \<and> map_of (example_base ''AB'') ''rationale'' = Some (JStr ''N/A'')"
proof -
  have h: "flatten_record (\<lambda>v. []) (example_record ''AB'' []) = Inr (example_base ''AB'')"
    using example_flatten [of "\<lambda>v. []" "''AB''"]
    by (simp add: str_upper_def upper_char_def ascii_uppercase_def ascii_lowercase_def)
  show ?thesis
    using h rationale_default [OF h]
    by (simp add: example_base_def)
qed

end
